theory Spec2Isabelle
  imports Complex_Main "HOL-Library.Word"
begin

section \<open>Data model of \<^verbatim>\<open>mmdvm_statemachine/models.py\<close>\<close>

text \<open>
  The enumerations of the module. Three of the Python enums share member names
  (\<^verbatim>\<open>IDLE\<close>, \<^verbatim>\<open>ERROR\<close>, \<^verbatim>\<open>UNKNOWN\<close>); the members of
  \<^verbatim>\<open>ModemState\<close> and \<^verbatim>\<open>NetworkStatus\<close> carry a prefix here, the members
  of \<^verbatim>\<open>Mode\<close> and \<^verbatim>\<open>QSOStatus\<close> keep their names.
\<close>

datatype Mode = DSTAR | DMR | YSF | P25 | NXDN | POCSAG | FM | IDLE

datatype QSOStatus = STARTING | ACTIVE | ENDING | COMPLETED | TIMEOUT | ERROR

datatype ModemState = Modem_IDLE | RX | TX | Modem_ERROR | Modem_UNKNOWN

datatype NetworkStatus = CONNECTED | DISCONNECTED | CONNECTING | Net_ERROR | Net_UNKNOWN

text \<open>
  A \<^verbatim>\<open>UUID\<close> is a 128-bit value; the code only compares identifiers for
  equality. A \<^verbatim>\<open>datetime\<close> is a naive timestamp with microsecond resolution, as
  \<^verbatim>\<open>datetime.now()\<close> produces it: the number of microseconds on the time line.
  The clock is an input of the model: every call of \<^verbatim>\<open>datetime.now()\<close> in the
  source is a parameter of the function that makes it.
\<close>

type_synonym uuid = "128 word"

type_synonym datetime = int

text \<open>
  \<^verbatim>\<open>timedelta.total_seconds()\<close>: the difference of two timestamps, in seconds.
  The Python value is the float nearest to this quotient; the model keeps the quotient.
\<close>

definition total_seconds :: "int \<Rightarrow> real" where
  "total_seconds delta = real_of_int delta / 1000000"

text \<open>
  Class \<^verbatim>\<open>QSO\<close>. The field \<^verbatim>\<open>id\<close> is \<open>qso_id\<close> here (\<open>id\<close> is the
  identity function of HOL). The values of \<^verbatim>\<open>metadata\<close> are opaque to the code.
\<close>

record QSO =
  qso_id :: uuid
  start_time :: datetime
  end_time :: "datetime option"
  duration_seconds :: "real option"
  mode :: Mode
  status :: QSOStatus
  source_callsign :: "string option"
  destination :: "string option"
  slot :: "int option"
  talk_group :: "int option"
  source_id :: "int option"
  destination_id :: "int option"
  reflector :: "string option"
  ber :: "real option"
  rssi :: "int option"
  loss_rate :: "real option"
  rf_source :: bool
  metadata :: "(string \<times> string) list"

text \<open>
  \<^verbatim>\<open>QSO(mode=m)\<close>: every other field takes its default; \<^verbatim>\<open>uuid4()\<close> and
  \<^verbatim>\<open>datetime.now()\<close>, the two default factories, are the parameters \<open>i\<close> and
  \<open>now\<close>.
\<close>

definition new_qso :: "uuid \<Rightarrow> datetime \<Rightarrow> Mode \<Rightarrow> QSO" where
  "new_qso i now m =
     \<lparr> qso_id = i, start_time = now, end_time = None, duration_seconds = None,
       mode = m, status = STARTING, source_callsign = None, destination = None,
       slot = None, talk_group = None, source_id = None, destination_id = None,
       reflector = None, ber = None, rssi = None, loss_rate = None,
       rf_source = True, metadata = [] \<rparr>"

text \<open>
  \<^verbatim>\<open>QSO.complete(end_time=None)\<close>. A \<^verbatim>\<open>datetime\<close> is always truthy, so
  \<^verbatim>\<open>end_time or datetime.now()\<close> is \<^verbatim>\<open>end_time\<close> unless it is \<^verbatim>\<open>None\<close>.
  The three assignments are unconditional.
\<close>

definition complete :: "QSO \<Rightarrow> datetime option \<Rightarrow> datetime \<Rightarrow> QSO" where
  "complete self et now =
     (let e = (case et of Some t \<Rightarrow> t | None \<Rightarrow> now);
          delta = e - start_time self
      in self\<lparr> end_time := Some e,
               duration_seconds := Some (total_seconds delta),
               status := COMPLETED \<rparr>)"

text \<open>\<^verbatim>\<open>QSO.is_active()\<close>: membership in the tuple \<^verbatim>\<open>(STARTING, ACTIVE)\<close>.\<close>

definition is_active :: "QSO \<Rightarrow> bool" where
  "is_active self = (status self \<in> set [STARTING, ACTIVE])"

text \<open>The terminal statuses of the lifecycle, as the specification names them.\<close>

definition is_terminal :: "QSOStatus \<Rightarrow> bool" where
  "is_terminal st = (st = COMPLETED \<or> st = TIMEOUT \<or> st = ERROR)"

text \<open>The end time that \<open>complete\<close> uses: the argument, or the clock.\<close>

definition effective_end :: "datetime option \<Rightarrow> datetime \<Rightarrow> datetime" where
  "effective_end et now = (case et of Some t \<Rightarrow> t | None \<Rightarrow> now)"


text \<open>
  A QSO that timed out at 20 microseconds, ten after its start: what
  \<^verbatim>\<open>QSO(mode=Mode.DMR, status=QSOStatus.TIMEOUT, end_time=..., duration_seconds=...)\<close>
  builds.
\<close>

definition timed_out_qso :: QSO where
  "timed_out_qso =
     (new_qso 1 10 DMR)\<lparr> end_time := Some 20,
                          duration_seconds := Some (total_seconds 10),
                          status := TIMEOUT \<rparr>"

subsection \<open>SystemState\<close>

text \<open>Class \<^verbatim>\<open>ModeStatus\<close>; its field \<^verbatim>\<open>mode\<close> is \<open>ms_mode\<close> here.\<close>

record ModeStatus =
  ms_mode :: Mode
  enabled :: bool
  network_status :: NetworkStatus
  network_name :: "string option"
  last_activity :: "datetime option"

text \<open>Class \<^verbatim>\<open>SystemState\<close>. Python's \<^verbatim>\<open>int\<close> is unbounded: \<open>error_count\<close> is an \<open>int\<close>.\<close>

record SystemState =
  current_mode :: Mode
  modem_state :: ModemState
  active_qsos :: "QSO list"
  mode_status :: "Mode \<rightharpoonup> ModeStatus"
  last_update :: datetime
  uptime_seconds :: "real option"
  error_count :: int
  last_error :: "string option"
  last_error_time :: "datetime option"

text \<open>\<^verbatim>\<open>SystemState()\<close>: the defaults; \<open>now\<close> is the clock read by the default factory.\<close>

definition new_system_state :: "datetime \<Rightarrow> SystemState" where
  "new_system_state now =
     \<lparr> current_mode = IDLE, modem_state = Modem_UNKNOWN, active_qsos = [],
       mode_status = Map.empty, last_update = now, uptime_seconds = None,
       error_count = 0, last_error = None, last_error_time = None \<rparr>"

text \<open>
  The methods mutate \<^verbatim>\<open>self\<close>; the model passes the state explicitly. A method
  that returns \<^verbatim>\<open>None\<close> yields the new state, a method that returns a value yields
  the value and the state it leaves behind.

  \<^verbatim>\<open>add_active_qso\<close> appends without looking at the list.
\<close>

definition add_active_qso :: "SystemState \<Rightarrow> QSO \<Rightarrow> datetime \<Rightarrow> SystemState" where
  "add_active_qso self qso now =
     self\<lparr> active_qsos := active_qsos self @ [qso], last_update := now \<rparr>"

text \<open>
  The loop \<^verbatim>\<open>for i, qso in enumerate(self.active_qsos): if qso.id == qso_id\<close>:
  the index of the first QSO with the identifier, counting from \<open>i\<close>.
\<close>

fun enumerate_find :: "uuid \<Rightarrow> QSO list \<Rightarrow> nat \<Rightarrow> nat option" where
  "enumerate_find qid [] i = None"
| "enumerate_find qid (q # qs) i =
     (if qso_id q = qid then Some i else enumerate_find qid qs (Suc i))"

text \<open>
  \<^verbatim>\<open>list.pop(i)\<close> at an index in range: the element and the list without it. Its
  only call passes an index that the loop above has just produced.
\<close>

definition pop :: "'a list \<Rightarrow> nat \<Rightarrow> 'a \<times> 'a list" where
  "pop xs i = (xs ! i, take i xs @ drop (Suc i) xs)"

definition remove_active_qso ::
  "SystemState \<Rightarrow> uuid \<Rightarrow> datetime \<Rightarrow> QSO option \<times> SystemState" where
  "remove_active_qso self qid now =
     (case enumerate_find qid (active_qsos self) 0 of
        Some i \<Rightarrow>
          (let (removed, rest) = pop (active_qsos self) i
           in (Some removed, self\<lparr> active_qsos := rest, last_update := now \<rparr>))
      | None \<Rightarrow> (None, self))"

text \<open>The loop of \<^verbatim>\<open>get_active_qso_by_id\<close>: the first QSO with the identifier.\<close>

fun first_with_id :: "uuid \<Rightarrow> QSO list \<Rightarrow> QSO option" where
  "first_with_id qid [] = None"
| "first_with_id qid (q # qs) = (if qso_id q = qid then Some q else first_with_id qid qs)"

definition get_active_qso_by_id :: "SystemState \<Rightarrow> uuid \<Rightarrow> QSO option \<times> SystemState" where
  "get_active_qso_by_id self qid = (first_with_id qid (active_qsos self), self)"

text \<open>
  \<^verbatim>\<open>record_error\<close> reads the clock twice: \<open>now1\<close> for \<^verbatim>\<open>last_error_time\<close>,
  then \<open>now2\<close> for \<^verbatim>\<open>last_update\<close>.
\<close>

definition record_error :: "SystemState \<Rightarrow> string \<Rightarrow> datetime \<Rightarrow> datetime \<Rightarrow> SystemState" where
  "record_error self error_message now1 now2 =
     self\<lparr> error_count := error_count self + 1,
            last_error := Some error_message,
            last_error_time := Some now1,
            last_update := now2 \<rparr>"

subsection \<open>Sequences of operations\<close>

text \<open>
  A call of one of the three mutating methods, with its arguments and the clock
  readings available to it, in the order the method would read them.
\<close>

datatype command =
    AddActiveQso QSO datetime
  | RemoveActiveQso uuid datetime
  | RecordError string datetime datetime

fun apply_command :: "SystemState \<Rightarrow> command \<Rightarrow> SystemState" where
  "apply_command s (AddActiveQso q now) = add_active_qso s q now"
| "apply_command s (RemoveActiveQso qid now) = snd (remove_active_qso s qid now)"
| "apply_command s (RecordError m now1 now2) = record_error s m now1 now2"

fun run :: "SystemState \<Rightarrow> command list \<Rightarrow> SystemState" where
  "run s [] = s"
| "run s (c # cs) = run (apply_command s c) cs"

text \<open>The states after each command of a sequence, in order.\<close>

fun trace :: "SystemState \<Rightarrow> command list \<Rightarrow> SystemState list" where
  "trace s [] = []"
| "trace s (c # cs) = apply_command s c # trace (apply_command s c) cs"

fun clock_readings :: "command \<Rightarrow> datetime list" where
  "clock_readings (AddActiveQso q now) = [now]"
| "clock_readings (RemoveActiveQso qid now) = [now]"
| "clock_readings (RecordError m now1 now2) = [now1, now2]"

text \<open>The identifiers of the active QSOs, in list order.\<close>

definition active_ids :: "SystemState \<Rightarrow> uuid list" where
  "active_ids s = map qso_id (active_qsos s)"

text \<open>
  Every \<open>AddActiveQso\<close> of the sequence adds a QSO whose identifier is not active
  at that moment.
\<close>

fun fresh_adds :: "SystemState \<Rightarrow> command list \<Rightarrow> bool" where
  "fresh_adds s [] = True"
| "fresh_adds s (AddActiveQso q now # cs) =
     (qso_id q \<notin> set (active_ids s) \<and> fresh_adds (add_active_qso s q now) cs)"
| "fresh_adds s (c # cs) = fresh_adds (apply_command s c) cs"

subsection \<open>Example values\<close>

text \<open>
  Three QSOs as \<^verbatim>\<open>QSO(mode=...)\<close> builds them, with identifiers 1, 2 and 3; the
  state after adding the first two to a new \<^verbatim>\<open>SystemState\<close>; and a sequence of
  calls on a new state, with a clock that advances.
\<close>

definition qso_a :: QSO where "qso_a = new_qso 1 10 DMR"
definition qso_b :: QSO where "qso_b = new_qso 2 20 YSF"
definition qso_c :: QSO where "qso_c = new_qso 3 30 P25"

definition two_qso_state :: SystemState where
  "two_qso_state = add_active_qso (add_active_qso (new_system_state 0) qso_a 11) qso_b 21"

definition example_commands :: "command list" where
  "example_commands =
     [AddActiveQso qso_a 11, AddActiveQso qso_b 21, RecordError ''parse failure'' 25 26,
      RemoveActiveQso 1 30, RemoveActiveQso 7 31, AddActiveQso qso_a 40]"

section \<open>Configuration of the state machine (\<^verbatim>\<open>config.py\<close>)\<close>

text \<open>
  A validator raises \<^verbatim>\<open>ValueError\<close> with a message, or returns its argument.
  The constructor of a settings class collects the messages of the failed fields in the
  \<^verbatim>\<open>ValidationError\<close> (itself a \<^verbatim>\<open>ValueError\<close>) that pydantic raises.
\<close>

datatype error = ValueError string | ValidationError "string list"

definition validate_history_size :: "int \<Rightarrow> error + int" where
  "validate_history_size v =
     (if v < 1 \<or> v > 10000
      then Inl (ValueError ''qso_history_size must be between 1 and 10000'')
      else Inr v)"

definition validate_timeout :: "int \<Rightarrow> error + int" where
  "validate_timeout v =
     (if v < 1 \<or> v > 3600
      then Inl (ValueError ''qso_timeout_seconds must be between 1 and 3600'')
      else Inr v)"

record StateMachineConfig =
  qso_history_size :: int
  qso_timeout_seconds :: int
  supported_modes :: "string list"

definition default_supported_modes :: "string list" where
  "default_supported_modes =
     [''DSTAR'', ''DMR'', ''YSF'', ''P25'', ''NXDN'', ''POCSAG'', ''FM'', ''IDLE'']"

text \<open>The message of a failed validator, for the list of the \<^verbatim>\<open>ValidationError\<close>.\<close>

fun message :: "error \<Rightarrow> string list" where
  "message (ValueError m) = [m]"
| "message (ValidationError ms) = ms"

text \<open>
  \<^verbatim>\<open>StateMachineConfig(qso_history_size=.., qso_timeout_seconds=.., supported_modes=..)\<close>
  with each field given (\<open>Some\<close>: by keyword or, the class being a settings class,
  by its environment variable; an integer after pydantic's coercion) or not given
  (\<open>None\<close>). A field that is not given takes its default (100, 30, the eight modes);
  the validator of a field runs on its value either way. All fields are validated
  before the error is raised.
\<close>

definition new_state_machine_config ::
  "int option \<Rightarrow> int option \<Rightarrow> string list option \<Rightarrow> error + StateMachineConfig" where
  "new_state_machine_config hs ts ms =
     (let r1 = validate_history_size (case hs of None \<Rightarrow> 100 | Some v \<Rightarrow> v);
          r2 = validate_timeout (case ts of None \<Rightarrow> 30 | Some v \<Rightarrow> v);
          m = (case ms of None \<Rightarrow> default_supported_modes | Some l \<Rightarrow> l)
      in case (r1, r2) of
           (Inr h, Inr t) \<Rightarrow>
             Inr \<lparr> qso_history_size = h, qso_timeout_seconds = t, supported_modes = m \<rparr>
         | (Inl e1, Inr t) \<Rightarrow> Inl (ValidationError (message e1))
         | (Inr h, Inl e2) \<Rightarrow> Inl (ValidationError (message e2))
         | (Inl e1, Inl e2) \<Rightarrow> Inl (ValidationError (message e1 @ message e2)))"

text \<open>
  \<^verbatim>\<open>Config\<close> aggregates six sections. \<^verbatim>\<open>Config.from_yaml\<close> builds them in
  the order of its keyword arguments, and the first constructor that raises ends the
  call. The section before \<^verbatim>\<open>state_machine\<close> (\<^verbatim>\<open>log_monitoring\<close>) and the
  four after it are parameters here: the results of their constructors.
\<close>

record ('a, 'b) Config =
  log_monitoring :: 'a
  state_machine :: StateMachineConfig
  later_sections :: 'b

definition from_yaml ::
  "error + 'a \<Rightarrow> int option \<Rightarrow> int option \<Rightarrow> string list option \<Rightarrow> error + 'b
     \<Rightarrow> error + ('a, 'b) Config" where
  "from_yaml lm hs ts ms later =
     (case lm of
        Inl e \<Rightarrow> Inl e
      | Inr l \<Rightarrow>
          (case new_state_machine_config hs ts ms of
             Inl e \<Rightarrow> Inl e
           | Inr sm \<Rightarrow>
               (case later of
                  Inl e \<Rightarrow> Inl e
                | Inr r \<Rightarrow>
                    Inr \<lparr> log_monitoring = l, state_machine = sm, later_sections = r \<rparr>)))"

section \<open>The history of finished QSOs\<close>

text \<open>
  Modelled from the spec: the store that owns the state and the history, and its
  finalization of a QSO. The sources do not have them: \<^verbatim>\<open>SystemState\<close> in
  \<^verbatim>\<open>models.py\<close> has no history field and no method that finalizes a QSO, and the
  module that would (\<^verbatim>\<open>state_machine\<close>, named in the commented imports of
  \<^verbatim>\<open>__main__.py\<close>) is not among them. The sources have the declaration of the
  capacity, \<^verbatim>\<open>qso_history_size\<close> ("Number of QSOs to retain in history"), and its
  validator.

  The specification: the state holds "a bounded FIFO of completed/timed-out/errored QSOs
  (capacity = configured history size; oldest evicted first on overflow)".
\<close>

record SystemStateStore =
  state :: SystemState
  history :: "QSO list"
  capacity :: int

text \<open>
  Modelled from the spec: the insertion into the history, "evicting the oldest history
  entry if at capacity". The history is a list in insertion order, the oldest entry
  at its head.
\<close>

definition history_insert :: "int \<Rightarrow> QSO list \<Rightarrow> QSO \<Rightarrow> QSO list" where
  "history_insert cap h q = (if int (length h) + 1 > cap then tl h else h) @ [q]"

text \<open>
  Modelled from the spec: the three ways a QSO ends, with the terminal status of each
  ("COMPLETED, TIMEOUT, ERROR are terminal").
\<close>

datatype ending = Completes | TimesOut | Errors

fun terminal_status :: "ending \<Rightarrow> QSOStatus" where
  "terminal_status Completes = COMPLETED"
| "terminal_status TimesOut = TIMEOUT"
| "terminal_status Errors = ERROR"

text \<open>
  Modelled from the spec: the finished record of a QSO. "\<^verbatim>\<open>duration\<close> is set if and
  only if status is COMPLETED, TIMEOUT, or ERROR, and equals
  \<^verbatim>\<open>end_time - start_time\<close>, clamped to \<^verbatim>\<open>>= 0\<close>."
\<close>

definition finished :: "QSO \<Rightarrow> ending \<Rightarrow> datetime \<Rightarrow> QSO" where
  "finished q e t =
     q\<lparr> end_time := Some t,
        duration_seconds := Some (max 0 (total_seconds (t - start_time q))),
        status := terminal_status e \<rparr>"

text \<open>
  Modelled from the spec: the finalization. "Completing or erroring a QSO moves it from
  the active set to the bounded history, evicting the oldest history entry if at
  capacity"; a finalization "with no matching active QSO" is ignored. The active set
  is that of the sources, and the QSO leaves it through \<open>remove_active_qso\<close>.
\<close>

definition finalize_qso ::
  "SystemStateStore \<Rightarrow> uuid \<Rightarrow> ending \<Rightarrow> datetime \<Rightarrow> SystemStateStore" where
  "finalize_qso st qid e t =
     (case remove_active_qso (state st) qid t of
        (None, s) \<Rightarrow> st
      | (Some q, s) \<Rightarrow>
          st\<lparr> state := s,
              history := history_insert (capacity st) (history st) (finished q e t) \<rparr>)"

text \<open>
  Modelled from the spec: a sequence of finalizations, and the finished records that it
  inserts, in order.
\<close>

fun finalize_all ::
  "SystemStateStore \<Rightarrow> (uuid \<times> ending \<times> datetime) list \<Rightarrow> SystemStateStore" where
  "finalize_all st [] = st"
| "finalize_all st ((qid, e, t) # fs) = finalize_all (finalize_qso st qid e t) fs"

fun inserted :: "SystemStateStore \<Rightarrow> (uuid \<times> ending \<times> datetime) list \<Rightarrow> QSO list" where
  "inserted st [] = []"
| "inserted st ((qid, e, t) # fs) =
     (case first_with_id qid (active_qsos (state st)) of
        None \<Rightarrow> []
      | Some q \<Rightarrow> [finished q e t])
     @ inserted (finalize_qso st qid e t) fs"

text \<open>
  Modelled from the spec: \<^verbatim>\<open>get_history(limit)\<close>, an "ordered sequence of QSO, most
  recent first".
\<close>

definition get_history :: "SystemStateStore \<Rightarrow> nat \<Rightarrow> QSO list" where
  "get_history st limit = take limit (rev (history st))"

text \<open>
  Scenario E of the specification: a store of capacity 2 with three active QSOs and an
  empty history, and their completion in the order a, b, c.
\<close>

definition scenario_e_store :: SystemStateStore where
  "scenario_e_store =
     \<lparr> state = add_active_qso two_qso_state qso_c 31, history = [], capacity = 2 \<rparr>"

definition scenario_e_endings :: "(uuid \<times> ending \<times> datetime) list" where
  "scenario_e_endings = [(1, Completes, 41), (2, Completes, 42), (3, Completes, 43)]"

section \<open>Completing a QSO\<close>

lemma total_seconds_nonneg: "(0 \<le> total_seconds d) = (0 \<le> d)"
  by (simp add: total_seconds_def)

text \<open>
  C1 (as the code has it). Completing \<open>q\<close> with end time \<open>t\<close> (the argument, or the
  clock when there is none) sets \<open>end_time\<close> to \<open>t\<close>, \<open>duration_seconds\<close> to
  \<open>t - start_time\<close> in seconds, and \<open>status\<close> to \<open>COMPLETED\<close>, and changes no other
  field. The duration is not clamped: it is non-negative exactly when \<open>t\<close> is not
  before the start. Nothing limits the assignment to one per lifetime: a second call
  assigns the three fields again.
\<close>

theorem C1_complete_sets_fields:
  "complete q et now =
     q\<lparr> end_time := Some (effective_end et now),
        duration_seconds := Some (total_seconds (effective_end et now - start_time q)),
        status := COMPLETED \<rparr>
   \<and> (0 \<le> the (duration_seconds (complete q et now)))
       = (start_time q \<le> effective_end et now)
   \<and> duration_seconds (complete (complete q et now) et' now') =
       Some (total_seconds (effective_end et' now' - start_time q))"
  by (simp add: complete_def effective_end_def Let_def total_seconds_nonneg)

text \<open>
  C1 as stated fails: a QSO that started at 10 microseconds and is completed with end
  time 4 gets a negative duration, which is not the clamped value 0.
\<close>

theorem C1_counterexample_negative_duration:
  "duration_seconds (complete (new_qso 1 10 DMR) (Some 4) 99)
     \<noteq> Some (max 0 (total_seconds (4 - start_time (new_qso 1 10 DMR))))"
  by (simp add: complete_def new_qso_def total_seconds_def Let_def)

section \<open>Activity of a QSO\<close>

text \<open>
  C4 (as the code has it). \<open>is_active\<close> returns True exactly for the statuses
  \<open>STARTING\<close> and \<open>ACTIVE\<close>; for \<open>ENDING\<close> and for the three terminal statuses it
  returns False.
\<close>

theorem C4_is_active_iff:
  "is_active q = (status q = STARTING \<or> status q = ACTIVE)"
  by (auto simp: is_active_def)

text \<open>C4 as stated fails at a QSO whose status is \<open>ENDING\<close>.\<close>

theorem C4_counterexample_ending:
  "status ((new_qso 1 10 DMR)\<lparr>status := ENDING\<rparr>) \<in> {STARTING, ACTIVE, ENDING}
   \<and> \<not> is_active ((new_qso 1 10 DMR)\<lparr>status := ENDING\<rparr>)"
  by (simp add: is_active_def new_qso_def)

section \<open>Completing a terminal QSO again\<close>

text \<open>
  C5 (as the code has it). \<open>complete\<close> has no guard on the status: on a terminal QSO
  too it overwrites the three fields. It leaves \<open>q\<close> unchanged exactly when \<open>q\<close>
  already has status \<open>COMPLETED\<close> and already holds the end time and the duration of
  this call; so completing twice with the same end time equals completing once.
\<close>

theorem C5_complete_again:
  "(complete q et now = q) =
     (status q = COMPLETED \<and> end_time q = Some (effective_end et now)
      \<and> duration_seconds q = Some (total_seconds (effective_end et now - start_time q)))
   \<and> complete (complete q (Some t) now) (Some t) now' = complete q (Some t) now"
proof -
  have "(complete q et now = q) =
     (status q = COMPLETED \<and> end_time q = Some (effective_end et now)
      \<and> duration_seconds q = Some (total_seconds (effective_end et now - start_time q)))"
    by (cases q) (auto simp: complete_def effective_end_def Let_def)
  moreover have "complete (complete q (Some t) now) (Some t) now' = complete q (Some t) now"
    by (simp add: complete_def Let_def)
  ultimately show ?thesis by simp
qed

text \<open>
  C5 as stated fails: a QSO that timed out at 20 and is completed again with end time
  30 is terminal before the call, and the call changes its status, end time and
  duration.
\<close>

theorem C5_counterexample_timeout_overwritten:
  "is_terminal (status timed_out_qso)
   \<and> status (complete timed_out_qso (Some 30) 99) \<noteq> status timed_out_qso
   \<and> end_time (complete timed_out_qso (Some 30) 99) \<noteq> end_time timed_out_qso
   \<and> duration_seconds (complete timed_out_qso (Some 30) 99)
       \<noteq> duration_seconds timed_out_qso"
  by (simp add: timed_out_qso_def complete_def new_qso_def is_terminal_def
        total_seconds_def Let_def)


section \<open>The loops over the active list\<close>

lemma enumerate_find_None:
  "(enumerate_find qid qs i = None) = (\<forall>q \<in> set qs. qso_id q \<noteq> qid)"
  by (induction qs arbitrary: i) auto

lemma enumerate_find_Some:
  "enumerate_find qid qs i = Some j \<Longrightarrow>
     \<exists>pre q post. qs = pre @ q # post \<and> qso_id q = qid
        \<and> (\<forall>p \<in> set pre. qso_id p \<noteq> qid) \<and> j = i + length pre"
proof (induction qs arbitrary: i)
  case Nil
  then show ?case by simp
next
  case (Cons a qs)
  show ?case
  proof (cases "qso_id a = qid")
    case True
    with Cons.prems have "j = i" by simp
    with True have "a # qs = [] @ a # qs \<and> qso_id a = qid
        \<and> (\<forall>p \<in> set []. qso_id p \<noteq> qid) \<and> j = i + length ([]::QSO list)"
      by simp
    then show ?thesis by blast
  next
    case False
    with Cons.prems have "enumerate_find qid qs (Suc i) = Some j" by simp
    from Cons.IH[OF this] obtain pre q post where
      h: "qs = pre @ q # post" "qso_id q = qid" "\<forall>p \<in> set pre. qso_id p \<noteq> qid"
         "j = Suc i + length pre"
      by blast
    with False have "a # qs = (a # pre) @ q # post \<and> qso_id q = qid
        \<and> (\<forall>p \<in> set (a # pre). qso_id p \<noteq> qid) \<and> j = i + length (a # pre)"
      by simp
    then show ?thesis by blast
  qed
qed

lemma enumerate_find_split:
  "qso_id q = qid \<Longrightarrow> \<forall>p \<in> set pre. qso_id p \<noteq> qid \<Longrightarrow>
     enumerate_find qid (pre @ q # post) i = Some (i + length pre)"
  by (induction pre arbitrary: i) auto

lemma pop_split: "pop (pre @ q # post) (length pre) = (q, pre @ post)"
  by (simp add: pop_def)

lemma first_with_id_None:
  "(first_with_id qid qs = None) = (\<forall>q \<in> set qs. qso_id q \<noteq> qid)"
  by (induction qs) auto

lemma first_with_id_split:
  "qso_id q = qid \<Longrightarrow> \<forall>p \<in> set pre. qso_id p \<noteq> qid \<Longrightarrow>
     first_with_id qid (pre @ q # post) = Some q"
  by (induction pre) auto

lemma remove_active_qso_cases:
  "(enumerate_find qid (active_qsos s) 0 = None \<and> remove_active_qso s qid now = (None, s))
   \<or> (\<exists>pre q post. active_qsos s = pre @ q # post \<and> qso_id q = qid
         \<and> (\<forall>p \<in> set pre. qso_id p \<noteq> qid)
         \<and> remove_active_qso s qid now =
             (Some q, s\<lparr> active_qsos := pre @ post, last_update := now \<rparr>))"
proof (cases "enumerate_find qid (active_qsos s) 0")
  case None
  then show ?thesis by (simp add: remove_active_qso_def)
next
  case (Some j)
  from enumerate_find_Some[OF this] obtain pre q post where
    h: "active_qsos s = pre @ q # post" "qso_id q = qid"
       "\<forall>p \<in> set pre. qso_id p \<noteq> qid" "j = length pre"
    by auto
  have "pop (active_qsos s) j = (q, pre @ post)"
    using h pop_split by simp
  with Some have "remove_active_qso s qid now =
             (Some q, s\<lparr> active_qsos := pre @ post, last_update := now \<rparr>)"
    by (simp add: remove_active_qso_def)
  with h show ?thesis by blast
qed

section \<open>Recording an error\<close>

text \<open>
  C6. For every state \<open>s\<close> and message \<open>m\<close>, \<open>record_error\<close> adds exactly one to
  \<open>error_count\<close>, sets \<open>last_error\<close> to \<open>m\<close> and \<open>last_error_time\<close> to the clock
  reading of the call, and besides these and \<open>last_update\<close> changes nothing. The method
  has no failing branch: its embedding is a total function into states, with no error
  result.
\<close>

theorem C6_record_error:
  "record_error s m now1 now2 =
     s\<lparr> error_count := error_count s + 1, last_error := Some m,
        last_error_time := Some now1, last_update := now2 \<rparr>
   \<and> error_count (record_error s m now1 now2) = error_count s + 1
   \<and> last_error (record_error s m now1 now2) = Some m
   \<and> last_error_time (record_error s m now1 now2) = Some now1"
  by (simp add: record_error_def)

section \<open>Removing an active QSO\<close>

text \<open>
  C9. If no active QSO has the identifier, \<open>remove_active_qso\<close> returns \<open>None\<close> and
  the state is the one before, \<open>last_update\<close> included. If the active list is
  \<open>pre @ q # post\<close> with \<open>q\<close> the first QSO that has the identifier, the call
  returns \<open>q\<close>, the list becomes \<open>pre @ post\<close>, \<open>last_update\<close> becomes the clock
  reading, and every other field is the one before. Whenever some active QSO has the
  identifier, the list has such a decomposition.
\<close>

theorem C9_remove_active_qso:
  "((\<forall>q \<in> set (active_qsos s). qso_id q \<noteq> qid) \<longrightarrow>
      remove_active_qso s qid now = (None, s))
   \<and> (active_qsos s = pre @ q # post \<and> qso_id q = qid
        \<and> (\<forall>p \<in> set pre. qso_id p \<noteq> qid) \<longrightarrow>
      remove_active_qso s qid now =
        (Some q, s\<lparr> active_qsos := pre @ post, last_update := now \<rparr>))
   \<and> ((\<exists>q \<in> set (active_qsos s). qso_id q = qid) \<longrightarrow>
        (\<exists>pre q post. active_qsos s = pre @ q # post \<and> qso_id q = qid
           \<and> (\<forall>p \<in> set pre. qso_id p \<noteq> qid)))"
proof (intro conjI impI)
  assume "\<forall>q \<in> set (active_qsos s). qso_id q \<noteq> qid"
  then have "enumerate_find qid (active_qsos s) 0 = None"
    by (simp add: enumerate_find_None)
  then show "remove_active_qso s qid now = (None, s)"
    by (simp add: remove_active_qso_def)
next
  assume h: "active_qsos s = pre @ q # post \<and> qso_id q = qid
        \<and> (\<forall>p \<in> set pre. qso_id p \<noteq> qid)"
  then have "enumerate_find qid (active_qsos s) 0 = Some (length pre)"
    using enumerate_find_split[of q qid pre post 0] by simp
  moreover have "pop (active_qsos s) (length pre) = (q, pre @ post)"
    using h pop_split by simp
  ultimately show "remove_active_qso s qid now =
        (Some q, s\<lparr> active_qsos := pre @ post, last_update := now \<rparr>)"
    by (simp add: remove_active_qso_def)
next
  assume "\<exists>q \<in> set (active_qsos s). qso_id q = qid"
  then have "enumerate_find qid (active_qsos s) 0 \<noteq> None"
    by (simp add: enumerate_find_None)
  then obtain j where "enumerate_find qid (active_qsos s) 0 = Some j" by blast
  from enumerate_find_Some[OF this]
  show "\<exists>pre q post. active_qsos s = pre @ q # post \<and> qso_id q = qid
           \<and> (\<forall>p \<in> set pre. qso_id p \<noteq> qid)"
    by blast
qed

text \<open>
  C9 at a state with two active QSOs: identifier 7 is absent and the call changes
  nothing; identifier 2 is that of the second QSO, which is removed and returned.
\<close>

theorem C9_witness:
  "7 \<notin> set (active_ids two_qso_state)
   \<and> remove_active_qso two_qso_state 7 50 = (None, two_qso_state)
   \<and> active_qsos two_qso_state = [qso_a] @ qso_b # []
   \<and> remove_active_qso two_qso_state 2 50 =
       (Some qso_b, two_qso_state\<lparr> active_qsos := [qso_a], last_update := 50 \<rparr>)"
  using C9_remove_active_qso [where s = two_qso_state and qid = 7 and now = 50]
        C9_remove_active_qso [where s = two_qso_state and qid = 2 and now = 50
          and pre = "[qso_a]" and q = qso_b and post = "[]"]
  by (simp add: two_qso_state_def add_active_qso_def new_system_state_def
        qso_a_def qso_b_def new_qso_def active_ids_def)

section \<open>Looking up an active QSO\<close>

text \<open>
  C10. \<open>get_active_qso_by_id\<close> leaves the state as it was, every field included;
  it returns \<open>None\<close> when no active QSO has the identifier and the first active QSO
  that has it otherwise (\<open>List.find\<close> on the active list).
\<close>

theorem C10_get_active_qso_by_id:
  "snd (get_active_qso_by_id s qid) = s
   \<and> ((\<forall>q \<in> set (active_qsos s). qso_id q \<noteq> qid) \<longrightarrow>
        fst (get_active_qso_by_id s qid) = None)
   \<and> (active_qsos s = pre @ q # post \<and> qso_id q = qid
        \<and> (\<forall>p \<in> set pre. qso_id p \<noteq> qid) \<longrightarrow>
        fst (get_active_qso_by_id s qid) = Some q)
   \<and> fst (get_active_qso_by_id s qid)
        = List.find (\<lambda>q. qso_id q = qid) (active_qsos s)"
proof -
  have f: "first_with_id qid xs = List.find (\<lambda>q. qso_id q = qid) xs" for xs
    by (induction xs) auto
  have a: "snd (get_active_qso_by_id s qid) = s"
    by (simp add: get_active_qso_by_id_def)
  have b: "(\<forall>q \<in> set (active_qsos s). qso_id q \<noteq> qid) \<longrightarrow>
        fst (get_active_qso_by_id s qid) = None"
    by (simp add: get_active_qso_by_id_def first_with_id_None)
  have c: "active_qsos s = pre @ q # post \<and> qso_id q = qid
        \<and> (\<forall>p \<in> set pre. qso_id p \<noteq> qid) \<longrightarrow>
        fst (get_active_qso_by_id s qid) = Some q"
    by (simp add: get_active_qso_by_id_def first_with_id_split)
  have d: "fst (get_active_qso_by_id s qid)
        = List.find (\<lambda>q. qso_id q = qid) (active_qsos s)"
    by (simp add: get_active_qso_by_id_def f)
  from a b c d show ?thesis by blast
qed


text \<open>C10 at the same state: identifier 7 is not found, identifier 2 is.\<close>

theorem C10_witness:
  "7 \<notin> set (active_ids two_qso_state)
   \<and> fst (get_active_qso_by_id two_qso_state 7) = None
   \<and> active_qsos two_qso_state = [qso_a] @ qso_b # []
   \<and> fst (get_active_qso_by_id two_qso_state 2) = Some qso_b"
  using C10_get_active_qso_by_id [where s = two_qso_state and qid = 7]
        C10_get_active_qso_by_id [where s = two_qso_state and qid = 2
          and pre = "[qso_a]" and q = qso_b and post = "[]"]
  by (simp add: two_qso_state_def add_active_qso_def new_system_state_def
        qso_a_def qso_b_def new_qso_def active_ids_def)

section \<open>Uniqueness of the active identifiers\<close>

lemma remove_active_qso_ids:
  "distinct (active_ids s) \<Longrightarrow> distinct (active_ids (snd (remove_active_qso s qid now)))"
  using remove_active_qso_cases [of qid s now]
  by (auto simp: active_ids_def)

lemma apply_command_distinct:
  "distinct (active_ids s) \<Longrightarrow> fresh_adds s (c # cs) \<Longrightarrow>
     distinct (active_ids (apply_command s c)) \<and> fresh_adds (apply_command s c) cs"
proof (cases c)
  case (AddActiveQso q now)
  assume "distinct (active_ids s)" "fresh_adds s (c # cs)"
  with AddActiveQso show ?thesis
    by (simp add: active_ids_def add_active_qso_def)
next
  case (RemoveActiveQso qid now)
  assume "distinct (active_ids s)" "fresh_adds s (c # cs)"
  with RemoveActiveQso show ?thesis
    by (simp add: remove_active_qso_ids)
next
  case (RecordError m n1 n2)
  assume "distinct (active_ids s)" "fresh_adds s (c # cs)"
  with RecordError show ?thesis
    by (simp add: active_ids_def record_error_def)
qed

lemma trace_distinct:
  "distinct (active_ids s) \<Longrightarrow> fresh_adds s cs \<Longrightarrow>
     \<forall>s' \<in> set (trace s cs). distinct (active_ids s')"
proof (induction cs arbitrary: s)
  case Nil
  then show ?case by simp
next
  case (Cons c cs)
  from apply_command_distinct[OF Cons.prems]
  have d: "distinct (active_ids (apply_command s c))"
    and f: "fresh_adds (apply_command s c) cs" by simp_all
  from Cons.IH[OF d f] d show ?case by simp
qed

text \<open>
  C2 (as the code has it). \<open>add_active_qso\<close> appends whatever it is given, so the
  uniqueness of the active identifiers rests on its callers: from a new state, after
  any sequence of \<open>add_active_qso\<close>, \<open>remove_active_qso\<close> and \<open>record_error\<close> in
  which every added QSO has an identifier that is not active at that moment, no state
  on the way holds two active QSOs with the same identifier; and adding a QSO whose
  identifier is active always produces a duplicate.
\<close>

theorem C2_fresh_adds_keep_ids_unique:
  "(fresh_adds (new_system_state t0) cs \<longrightarrow>
      (\<forall>s \<in> set (new_system_state t0 # trace (new_system_state t0) cs).
         distinct (active_ids s)))
   \<and> (qso_id q \<in> set (active_ids s) \<longrightarrow>
        \<not> distinct (active_ids (add_active_qso s q now)))"
proof (intro conjI impI)
  assume "fresh_adds (new_system_state t0) cs"
  moreover have "distinct (active_ids (new_system_state t0))"
    by (simp add: active_ids_def new_system_state_def)
  ultimately show "\<forall>s \<in> set (new_system_state t0 # trace (new_system_state t0) cs).
         distinct (active_ids s)"
    using trace_distinct by simp
next
  assume "qso_id q \<in> set (active_ids s)"
  then show "\<not> distinct (active_ids (add_active_qso s q now))"
    by (simp add: active_ids_def add_active_qso_def)
qed

text \<open>
  C2 on the example sequence, which adds the first QSO again after its removal, and
  on the two-QSO state, where adding the first QSO again duplicates its identifier.
\<close>

theorem C2_witness:
  "fresh_adds (new_system_state 0) example_commands
   \<and> list_all (\<lambda>s. distinct (active_ids s))
       (new_system_state 0 # trace (new_system_state 0) example_commands)
   \<and> qso_id qso_a \<in> set (active_ids two_qso_state)
   \<and> \<not> distinct (active_ids (add_active_qso two_qso_state qso_a 50))"
  using C2_fresh_adds_keep_ids_unique [where ?t0.0 = 0 and cs = example_commands
          and q = qso_a and s = two_qso_state and now = 50]
  by (simp add: list_all_iff example_commands_def two_qso_state_def add_active_qso_def
        new_system_state_def qso_a_def qso_b_def new_qso_def active_ids_def
        remove_active_qso_def pop_def record_error_def)

text \<open>
  C2 as stated fails: adding the same QSO twice to a new state leaves two active QSOs
  with one identifier.
\<close>

theorem C2_counterexample_same_qso_twice:
  "\<not> distinct (active_ids
       (run (new_system_state 0) [AddActiveQso qso_a 11, AddActiveQso qso_a 12]))"
  by (simp add: add_active_qso_def new_system_state_def qso_a_def new_qso_def active_ids_def)

section \<open>Monotonicity of \<open>last_update\<close>\<close>

lemma last_update_apply_command:
  "last_update (apply_command s c) = last_update s
   \<or> last_update (apply_command s c) \<in> set (clock_readings c)"
proof (cases c)
  case (AddActiveQso q now)
  then show ?thesis by (simp add: add_active_qso_def)
next
  case (RemoveActiveQso qid now)
  with remove_active_qso_cases [of qid s now] show ?thesis by auto
next
  case (RecordError m n1 n2)
  then show ?thesis by (simp add: record_error_def)
qed

lemma apply_command_clock:
  assumes "sorted (last_update s # clock_readings c @ rest)"
  shows "last_update s \<le> last_update (apply_command s c)
         \<and> sorted (last_update (apply_command s c) # rest)"
proof -
  from assms have a: "\<forall>t \<in> set (clock_readings c). last_update s \<le> t"
    and b: "\<forall>t \<in> set rest. last_update s \<le> t"
    and c: "\<forall>t \<in> set (clock_readings c). \<forall>u \<in> set rest. t \<le> u"
    and d: "sorted rest"
    by (auto simp: sorted_append)
  from last_update_apply_command [of s c] show ?thesis
  proof
    assume "last_update (apply_command s c) = last_update s"
    with b d show ?thesis by simp
  next
    assume "last_update (apply_command s c) \<in> set (clock_readings c)"
    with a c d show ?thesis by simp
  qed
qed

text \<open>
  C7. The clock is monotone when its readings, in the order the calls make them, never
  decrease, and the first is not before the \<open>last_update\<close> of the starting state
  (itself a clock reading, taken when the state was built). Then along any sequence of
  \<open>add_active_qso\<close>, \<open>remove_active_qso\<close> and \<open>record_error\<close> the values of
  \<open>last_update\<close>, from the starting state through the state after each call, never
  decrease.
\<close>

theorem C7_last_update_monotone:
  "sorted (last_update s # concat (map clock_readings cs))
   \<Longrightarrow> sorted (map last_update (s # trace s cs))"
proof (induction cs arbitrary: s)
  case Nil
  then show ?case by simp
next
  case (Cons c cs)
  from Cons.prems
  have "sorted (last_update s # clock_readings c @ concat (map clock_readings cs))"
    by simp
  from apply_command_clock [OF this]
  have le: "last_update s \<le> last_update (apply_command s c)"
    and so: "sorted (last_update (apply_command s c) # concat (map clock_readings cs))"
    by simp_all
  from Cons.IH [OF so]
  have "sorted (map last_update (apply_command s c # trace (apply_command s c) cs))" .
  with le show ?case by (simp del: sorted_wrt.simps add: sorted2)
qed

text \<open>
  C7 on the example sequence: the values of \<open>last_update\<close>. The removal that finds
  nothing (at clock 31) leaves the value at 30.
\<close>

theorem C7_witness:
  "sorted (last_update (new_system_state 0) # concat (map clock_readings example_commands))
   \<and> sorted (map last_update
        (new_system_state 0 # trace (new_system_state 0) example_commands))
   \<and> map last_update (new_system_state 0 # trace (new_system_state 0) example_commands)
       = [0, 11, 21, 26, 30, 30, 40]"
  using C7_last_update_monotone [where s = "new_system_state 0" and cs = example_commands]
  by (simp add: example_commands_def add_active_qso_def
        new_system_state_def qso_a_def qso_b_def new_qso_def
        remove_active_qso_def pop_def record_error_def)

section \<open>Validation of the state-machine configuration\<close>

text \<open>
  C8. \<open>validate_history_size\<close> returns its argument exactly when it lies in
  1..10000 and raises its \<open>ValueError\<close> exactly when it does not; likewise
  \<open>validate_timeout\<close> and 1..3600. A \<open>StateMachineConfig\<close> built from two given
  values exists exactly when both are in range, and then holds them; when one is out of
  range, the constructor fails and so does \<open>from_yaml\<close>: no \<open>Config\<close> is produced.
\<close>

theorem C8_validation_ranges:
  "(validate_history_size v = Inr v) = (1 \<le> v \<and> v \<le> 10000)
   \<and> (validate_history_size v
        = Inl (ValueError ''qso_history_size must be between 1 and 10000''))
       = (v < 1 \<or> 10000 < v)
   \<and> (validate_timeout w = Inr w) = (1 \<le> w \<and> w \<le> 3600)
   \<and> (validate_timeout w
        = Inl (ValueError ''qso_timeout_seconds must be between 1 and 3600''))
       = (w < 1 \<or> 3600 < w)
   \<and> (\<exists>c. new_state_machine_config (Some v) (Some w) ms = Inr c)
       = (1 \<le> v \<and> v \<le> 10000 \<and> 1 \<le> w \<and> w \<le> 3600)
   \<and> (v < 1 \<or> 10000 < v \<or> w < 1 \<or> 3600 < w \<longrightarrow>
        isl (new_state_machine_config (Some v) (Some w) ms)
        \<and> isl (from_yaml lm (Some v) (Some w) ms later))
   \<and> (1 \<le> v \<and> v \<le> 10000 \<and> 1 \<le> w \<and> w \<le> 3600 \<longrightarrow>
        (\<exists>m. new_state_machine_config (Some v) (Some w) ms =
           Inr \<lparr> qso_history_size = v, qso_timeout_seconds = w, supported_modes = m \<rparr>))"
proof -
  have h: "(validate_history_size v = Inr v) = (1 \<le> v \<and> v \<le> 10000)"
    by (auto simp: validate_history_size_def)
  have h': "(validate_history_size v
        = Inl (ValueError ''qso_history_size must be between 1 and 10000''))
       = (v < 1 \<or> 10000 < v)"
    by (auto simp: validate_history_size_def)
  have t: "(validate_timeout w = Inr w) = (1 \<le> w \<and> w \<le> 3600)"
    by (auto simp: validate_timeout_def)
  have t': "(validate_timeout w
        = Inl (ValueError ''qso_timeout_seconds must be between 1 and 3600''))
       = (w < 1 \<or> 3600 < w)"
    by (auto simp: validate_timeout_def)
  have c: "(\<exists>c. new_state_machine_config (Some v) (Some w) ms = Inr c)
       = (1 \<le> v \<and> v \<le> 10000 \<and> 1 \<le> w \<and> w \<le> 3600)"
    by (auto simp: new_state_machine_config_def validate_history_size_def
          validate_timeout_def Let_def)
  have r: "v < 1 \<or> 10000 < v \<or> w < 1 \<or> 3600 < w \<longrightarrow>
        isl (new_state_machine_config (Some v) (Some w) ms)
        \<and> isl (from_yaml lm (Some v) (Some w) ms later)"
    by (auto simp: from_yaml_def new_state_machine_config_def validate_history_size_def
          validate_timeout_def Let_def split: sum.splits)
  have a: "1 \<le> v \<and> v \<le> 10000 \<and> 1 \<le> w \<and> w \<le> 3600 \<longrightarrow>
        (\<exists>m. new_state_machine_config (Some v) (Some w) ms =
           Inr \<lparr> qso_history_size = v, qso_timeout_seconds = w, supported_modes = m \<rparr>)"
    by (auto simp: new_state_machine_config_def validate_history_size_def
          validate_timeout_def Let_def)
  from h h' t t' c r a show ?thesis by blast
qed

text \<open>
  C8 at a history size of 0, at a timeout of 7200, and at the bounds 10000 and 1.
\<close>

theorem C8_witness:
  "isl (new_state_machine_config (Some 0) (Some 30) None)
   \<and> isl (from_yaml (Inr ()) (Some 0) (Some 30) None (Inr ()))
   \<and> isl (from_yaml (Inr ()) (Some 100) (Some 7200) None (Inr ()))
   \<and> new_state_machine_config (Some 10000) (Some 1) None =
       Inr \<lparr> qso_history_size = 10000, qso_timeout_seconds = 1,
             supported_modes = default_supported_modes \<rparr>"
  using C8_validation_ranges [where v = 0 and w = 30 and ms = None
          and lm = "Inr ()" and later = "Inr ()"]
        C8_validation_ranges [where v = 100 and w = 7200 and ms = None
          and lm = "Inr ()" and later = "Inr ()"]
        C8_validation_ranges [where v = 10000 and w = 1 and ms = None]
  by (simp add: new_state_machine_config_def validate_history_size_def
        validate_timeout_def Let_def)

section \<open>The bounded history\<close>

lemma remove_active_qso_first:
  "fst (remove_active_qso s qid now) = first_with_id qid (active_qsos s)"
proof -
  from remove_active_qso_cases [of qid s now] show ?thesis
  proof
    assume "enumerate_find qid (active_qsos s) 0 = None
              \<and> remove_active_qso s qid now = (None, s)"
    then have "first_with_id qid (active_qsos s) = None"
      and "fst (remove_active_qso s qid now) = None"
      by (simp_all add: enumerate_find_None first_with_id_None)
    then show ?thesis by simp
  next
    assume "\<exists>pre q post. active_qsos s = pre @ q # post \<and> qso_id q = qid
         \<and> (\<forall>p \<in> set pre. qso_id p \<noteq> qid)
         \<and> remove_active_qso s qid now =
             (Some q, s\<lparr> active_qsos := pre @ post, last_update := now \<rparr>)"
    then obtain pre q post where h: "active_qsos s = pre @ q # post" "qso_id q = qid"
        "\<forall>p \<in> set pre. qso_id p \<noteq> qid"
        "remove_active_qso s qid now =
             (Some q, s\<lparr> active_qsos := pre @ post, last_update := now \<rparr>)"
      by blast
    from h(1,2,3) have "first_with_id qid (active_qsos s) = Some q"
      by (simp add: first_with_id_split)
    with h(4) show ?thesis by simp
  qed
qed

lemma finalize_qso_miss:
  "first_with_id qid (active_qsos (state st)) = None \<Longrightarrow> finalize_qso st qid e t = st"
  using remove_active_qso_first [of "state st" qid t]
  by (cases "remove_active_qso (state st) qid t") (simp add: finalize_qso_def)

lemma finalize_qso_hit:
  "first_with_id qid (active_qsos (state st)) = Some q \<Longrightarrow>
     history (finalize_qso st qid e t) = history_insert (capacity st) (history st) (finished q e t)
     \<and> capacity (finalize_qso st qid e t) = capacity st"
  using remove_active_qso_first [of "state st" qid t]
  by (cases "remove_active_qso (state st) qid t") (simp add: finalize_qso_def)

lemma capacity_finalize_qso: "capacity (finalize_qso st qid e t) = capacity st"
  by (cases "first_with_id qid (active_qsos (state st))")
     (simp_all add: finalize_qso_miss finalize_qso_hit)

lemma capacity_finalize_all: "capacity (finalize_all st fs) = capacity st"
  by (induction st fs rule: finalize_all.induct) (simp_all add: capacity_finalize_qso)

lemma history_insert_length:
  "1 \<le> cap \<Longrightarrow> int (length h) \<le> cap \<Longrightarrow> int (length (history_insert cap h q)) \<le> cap"
  by (auto simp: history_insert_def)

lemma history_insert_drop:
  assumes "1 \<le> cap" "int (length h) \<le> cap"
  shows "drop (length (history_insert cap h q @ r) - nat cap) (history_insert cap h q @ r)
           = drop (length (h @ q # r) - nat cap) (h @ q # r)"
proof (cases "int (length h) + 1 > cap")
  case True
  with assms have l: "nat cap = length h" and ne: "h \<noteq> []" by auto
  from ne obtain x xs where x: "h = x # xs" by (cases h) auto
  have e: "history_insert cap h q = xs @ [q]"
    using True x by (simp add: history_insert_def)
  have "length (h @ q # r) - nat cap = Suc (length r)" unfolding l by simp
  then have "drop (length (h @ q # r) - nat cap) (h @ q # r) = drop (Suc (length r)) (h @ q # r)"
    by (rule arg_cong)
  also have "\<dots> = drop (length r) (xs @ q # r)" using x by simp
  finally have rhs: "drop (length (h @ q # r) - nat cap) (h @ q # r)
                 = drop (length r) (xs @ q # r)" .
  have "length ((xs @ [q]) @ r) - nat cap = length r" unfolding l x by simp
  then have "drop (length ((xs @ [q]) @ r) - nat cap) ((xs @ [q]) @ r)
               = drop (length r) ((xs @ [q]) @ r)"
    by (rule arg_cong)
  with e rhs show ?thesis by simp
next
  case False
  then have "history_insert cap h q @ r = h @ q # r"
    by (simp add: history_insert_def)
  then show ?thesis by simp
qed

lemma finalize_all_fifo:
  "1 \<le> capacity st \<Longrightarrow> int (length (history st)) \<le> capacity st \<Longrightarrow>
     history (finalize_all st fs)
       = drop (length (history st @ inserted st fs) - nat (capacity st))
           (history st @ inserted st fs)"
proof (induction st fs rule: finalize_all.induct)
  case (1 st)
  then show ?case by simp
next
  case (2 st qid e t fs)
  let ?st = "finalize_qso st qid e t"
  show ?case
  proof (cases "first_with_id qid (active_qsos (state st))")
    case None
    then have "?st = st" by (rule finalize_qso_miss)
    with None 2 show ?thesis by simp
  next
    case (Some q)
    from finalize_qso_hit [OF Some, of e t]
    have h: "history ?st = history_insert (capacity st) (history st) (finished q e t)"
      and c: "capacity ?st = capacity st" by simp_all
    have len: "int (length (history ?st)) \<le> capacity ?st"
      using "2.prems" h c by (simp add: history_insert_length)
    have "history (finalize_all ?st fs)
            = drop (length (history ?st @ inserted ?st fs) - nat (capacity ?st))
                (history ?st @ inserted ?st fs)"
      using "2.IH" "2.prems"(1) len c by simp
    also have "\<dots> = drop (length (history st @ finished q e t # inserted ?st fs)
                               - nat (capacity st))
                        (history st @ finished q e t # inserted ?st fs)"
      unfolding h c using "2.prems" by (rule history_insert_drop)
    finally show ?thesis using Some by simp
  qed
qed

lemma finalize_all_length:
  "1 \<le> capacity st \<Longrightarrow> int (length (history st)) \<le> capacity st \<Longrightarrow>
     int (length (history (finalize_all st fs))) \<le> capacity st"
proof (induction st fs rule: finalize_all.induct)
  case (1 st)
  then show ?case by simp
next
  case (2 st qid e t fs)
  let ?st = "finalize_qso st qid e t"
  have c: "capacity ?st = capacity st" by (rule capacity_finalize_qso)
  have "int (length (history ?st)) \<le> capacity st"
  proof (cases "first_with_id qid (active_qsos (state st))")
    case None
    then have "?st = st" by (rule finalize_qso_miss)
    with "2.prems" show ?thesis by simp
  next
    case (Some q)
    from finalize_qso_hit [OF Some, of e t] "2.prems" show ?thesis
      by (simp add: history_insert_length)
  qed
  with "2.IH" "2.prems"(1) c show ?case by simp
qed

text \<open>
  C3, on the store modelled from the specification. Take a store whose capacity the
  validator of \<open>qso_history_size\<close> accepts and whose history is within it. After any
  sequence of finalizations the history is within the capacity, which has not changed,
  and it is the most recent part, in insertion order, of the old history followed by
  the records the sequence inserted: what is missing are the oldest entries. In one
  step, a finalization that matches no active QSO changes nothing; one that matches
  appends the finished record, after evicting the oldest entry exactly when the
  history is full.
\<close>

theorem C3_history_bounded_fifo:
  assumes "validate_history_size (capacity st) = Inr (capacity st)"
    and "int (length (history st)) \<le> capacity st"
  shows "int (length (history (finalize_all st fs))) \<le> capacity st
    \<and> capacity (finalize_all st fs) = capacity st
    \<and> history (finalize_all st fs)
        = drop (length (history st @ inserted st fs) - nat (capacity st))
            (history st @ inserted st fs)
    \<and> (first_with_id qid (active_qsos (state st)) = None \<longrightarrow>
         finalize_qso st qid e t = st)
    \<and> (first_with_id qid (active_qsos (state st)) = Some q \<longrightarrow>
         history (finalize_qso st qid e t)
           = (if int (length (history st)) = capacity st
              then tl (history st) else history st) @ [finished q e t])"
proof -
  from assms(1) have c: "1 \<le> capacity st"
    by (simp add: validate_history_size_def split: if_splits)
  have a: "int (length (history (finalize_all st fs))) \<le> capacity st"
    using c assms(2) by (rule finalize_all_length)
  have b: "capacity (finalize_all st fs) = capacity st"
    by (rule capacity_finalize_all)
  have d: "history (finalize_all st fs)
        = drop (length (history st @ inserted st fs) - nat (capacity st))
            (history st @ inserted st fs)"
    using c assms(2) by (rule finalize_all_fifo)
  have m: "first_with_id qid (active_qsos (state st)) = None \<longrightarrow>
         finalize_qso st qid e t = st"
    by (simp add: finalize_qso_miss)
  have h: "first_with_id qid (active_qsos (state st)) = Some q \<longrightarrow>
         history (finalize_qso st qid e t)
           = (if int (length (history st)) = capacity st
              then tl (history st) else history st) @ [finished q e t]"
    using assms(2) by (auto simp: finalize_qso_hit history_insert_def)
  from a b d m h show ?thesis by blast
qed

text \<open>
  C3 in scenario E of the specification: with capacity 2, the QSOs a, b, c complete in
  this order; the history ends holding b and c, \<open>get_history\<close> lists c before b, and
  no QSO is active any more.
\<close>

theorem C3_witness:
  "validate_history_size (capacity scenario_e_store) = Inr (capacity scenario_e_store)
   \<and> int (length (history scenario_e_store)) \<le> capacity scenario_e_store
   \<and> inserted scenario_e_store scenario_e_endings
       = [finished qso_a Completes 41, finished qso_b Completes 42,
          finished qso_c Completes 43]
   \<and> history (finalize_all scenario_e_store scenario_e_endings)
       = [finished qso_b Completes 42, finished qso_c Completes 43]
   \<and> get_history (finalize_all scenario_e_store scenario_e_endings) 2
       = [finished qso_c Completes 43, finished qso_b Completes 42]
   \<and> active_qsos (state (finalize_all scenario_e_store scenario_e_endings)) = []"
  using C3_history_bounded_fifo [where st = scenario_e_store and fs = scenario_e_endings]
  by (simp add: scenario_e_store_def scenario_e_endings_def validate_history_size_def
        get_history_def finalize_qso_def history_insert_def remove_active_qso_def pop_def
        two_qso_state_def add_active_qso_def new_system_state_def
        qso_a_def qso_b_def qso_c_def new_qso_def)

end
